theory Spec2Isabelle
  imports Complex_Main "HOL-Library.AList"
begin

section \<open>Data model\<close>

text \<open>
  A pandas DataFrame is modelled column-major, as pandas stores it: a list of named
  columns in column order. A cell is a number, a string or the missing value (NaN).
  Numbers are exact rationals: the finite values of a float column, compared and
  averaged without rounding. Every column carries its dtype, because the code asks
  for it (\<^verbatim>\<open>select_dtypes\<close>, the \<^verbatim>\<open>.str\<close> and \<^verbatim>\<open>.dt\<close> accessors).
  Column names are assumed distinct, as \<^verbatim>\<open>read_csv\<close> delivers them.
\<close>

datatype cell = Num rat | Str string | NA

datatype dtype = NumericT | ObjectT | CategoryT | DatetimeT

record column =
  dtype :: dtype
  cells :: "cell list"

type_synonym table = "(string \<times> column) list"

datatype error = TypeError | ValueError | AttributeError | KeyError

text \<open>
  What the code takes from pandas without deciding it itself is a parameter of the
  model: the parser behind \<^verbatim>\<open>pd.to_numeric\<close>, the printer behind \<^verbatim>\<open>astype(str)\<close> on
  a number, the timestamp parser behind \<^verbatim>\<open>pd.to_datetime\<close>, the three \<^verbatim>\<open>.dt\<close> fields
  and the addition of two columns.
\<close>

record library =
  parse_num :: "string \<Rightarrow> rat option"
  show_num :: "rat \<Rightarrow> string"
  to_datetime :: "cell \<Rightarrow> cell"
  dt_date :: "cell \<Rightarrow> cell"
  dt_hour :: "cell \<Rightarrow> cell"
  dt_day_name :: "cell \<Rightarrow> cell"
  add_series :: "column \<Rightarrow> column \<Rightarrow> error + column"

definition nrows :: "table \<Rightarrow> nat" where
  \<comment> \<open>\<^verbatim>\<open>len(df)\<close>\<close>
  "nrows df = (case df of [] \<Rightarrow> 0 | (n, c) # rest \<Rightarrow> length (cells c))"

definition columns :: "table \<Rightarrow> string list" where
  \<comment> \<open>\<^verbatim>\<open>df.columns\<close>\<close>
  "columns df = map fst df"

definition assign :: "string \<Rightarrow> column \<Rightarrow> table \<Rightarrow> table" where
  \<comment> \<open>\<^verbatim>\<open>df[name] = col\<close>: in place when the column exists, appended last otherwise\<close>
  "assign name col df = AList.update name col df"

definition on_column :: "string \<Rightarrow> (column \<Rightarrow> column) \<Rightarrow> table \<Rightarrow> table" where
  \<comment> \<open>\<^verbatim>\<open>if name in df.columns: df[name] = f(df[name])\<close>\<close>
  "on_column name f df =
     (case map_of df name of None \<Rightarrow> df | Some col \<Rightarrow> assign name (f col) df)"

section \<open>Strings\<close>

text \<open>Python strings over the ASCII alphabet; other characters are left as they are.\<close>

definition lower_char :: "char \<Rightarrow> char" where
  "lower_char c =
     (case map_of (zip ''ABCDEFGHIJKLMNOPQRSTUVWXYZ'' ''abcdefghijklmnopqrstuvwxyz'') c of
        Some l \<Rightarrow> l | None \<Rightarrow> c)"

definition upper_char :: "char \<Rightarrow> char" where
  "upper_char c =
     (case map_of (zip ''abcdefghijklmnopqrstuvwxyz'' ''ABCDEFGHIJKLMNOPQRSTUVWXYZ'') c of
        Some u \<Rightarrow> u | None \<Rightarrow> c)"

definition str_lower :: "string \<Rightarrow> string" where
  "str_lower s = map lower_char s"

definition str_upper :: "string \<Rightarrow> string" where
  "str_upper s = map upper_char s"

definition is_space :: "char \<Rightarrow> bool" where
  \<comment> \<open>\<^verbatim>\<open>str.isspace\<close> on ASCII: tab, line feed, vertical tab, form feed, carriage return,
      the four separators 28 to 31, and the space\<close>
  "is_space c = ((of_char c :: nat) \<in> {9, 10, 11, 12, 13, 28, 29, 30, 31, 32})"

definition str_strip :: "string \<Rightarrow> string" where
  "str_strip s = rev (dropWhile is_space (rev (dropWhile is_space s)))"

definition remove_whitespace :: "string \<Rightarrow> string" where
  \<comment> \<open>\<^verbatim>\<open>re.sub(r"\s+", "", s)\<close>\<close>
  "remove_whitespace s = filter (\<lambda>c. \<not> is_space c) s"

fun str_contains :: "string \<Rightarrow> string \<Rightarrow> bool" where
  \<comment> \<open>\<^verbatim>\<open>sub in s\<close>\<close>
  "str_contains sub [] = (sub = [])"
| "str_contains sub (c # cs) = (take (length sub) (c # cs) = sub \<or> str_contains sub cs)"

definition astype_str :: "library \<Rightarrow> cell \<Rightarrow> string" where
  \<comment> \<open>one cell of \<^verbatim>\<open>astype(str)\<close>: NaN prints as \<^verbatim>\<open>nan\<close>\<close>
  "astype_str L x = (case x of Str s \<Rightarrow> s | Num r \<Rightarrow> show_num L r | NA \<Rightarrow> ''nan'')"

definition astype_str_strip :: "library \<Rightarrow> column \<Rightarrow> column" where
  \<comment> \<open>\<^verbatim>\<open>col.astype(str).str.strip()\<close>\<close>
  "astype_str_strip L col =
     \<lparr>dtype = ObjectT, cells = map (\<lambda>x. Str (str_strip (astype_str L x))) (cells col)\<rparr>"

fun str_map :: "(string \<Rightarrow> string) \<Rightarrow> cell \<Rightarrow> cell" where
  \<comment> \<open>an elementwise \<^verbatim>\<open>.str\<close> method: a cell that is not a string becomes NaN\<close>
  "str_map f (Str s) = Str (f s)"
| "str_map f x = NA"

section \<open>The Cleaner\<close>





definition keep_rows :: "bool list \<Rightarrow> 'a list \<Rightarrow> 'a list" where
  "keep_rows dups xs = map fst (filter (\<lambda>(x, d). \<not> d) (zip xs dups))"




section \<open>The Imputer/Caster\<close>

definition numeric_candidates :: "string list" where
  "numeric_candidates =
     [''income'', ''miles'', ''usage'', ''fitness'', ''age'', ''year'', ''price'',
      ''quantity'', ''count'']"

definition to_numeric :: "library \<Rightarrow> cell \<Rightarrow> cell" where
  \<comment> \<open>one cell of \<^verbatim>\<open>pd.to_numeric(col, errors="coerce")\<close>\<close>
  "to_numeric L x =
     (case x of
        Num r \<Rightarrow> Num r
      | Str s \<Rightarrow> (case parse_num L s of Some r \<Rightarrow> Num r | None \<Rightarrow> NA)
      | NA \<Rightarrow> NA)"

fun num_of :: "cell \<Rightarrow> rat option" where
  "num_of (Num r) = Some r"
| "num_of x = None"

definition nums :: "cell list \<Rightarrow> rat list" where
  \<comment> \<open>the non-missing values of a numeric column\<close>
  "nums xs = List.map_filter num_of xs"

definition median :: "rat list \<Rightarrow> rat option" where
  \<comment> \<open>\<^verbatim>\<open>Series.median(skipna=True)\<close> of the non-missing values; None is NaN\<close>
  "median xs =
     (let s = sort xs; n = length s
      in if n = 0 then None
         else if odd n then Some (s ! (n div 2))
         else Some ((s ! (n div 2 - 1) + s ! (n div 2)) / 2))"

definition fillna :: "rat \<Rightarrow> cell list \<Rightarrow> cell list" where
  "fillna v xs = map (\<lambda>x. if x = NA then Num v else x) xs"

definition impute_column :: "library \<Rightarrow> column \<Rightarrow> column" where
  "impute_column L col =
     (let xs = map (to_numeric L) (cells col);
          med = (case median (nums xs) of None \<Rightarrow> 0 | Some m \<Rightarrow> m)
      in \<lparr>dtype = NumericT, cells = fillna med xs\<rparr>)"

definition impute_and_cast :: "library \<Rightarrow> table \<Rightarrow> table" where
  "impute_and_cast L df0 =
     (let df = fold (\<lambda>col df. on_column col (impute_column L) df) numeric_candidates df0
      in fold (\<lambda>cat df. on_column cat (astype_str_strip L) df)
           [''product'', ''gender'', ''education''] df)"

section \<open>Binning\<close>

text \<open>
  \<^verbatim>\<open>pd.cut\<close> and \<^verbatim>\<open>pd.qcut\<close> as the code calls them. Both end in the same step: a value
  is placed by \<^verbatim>\<open>searchsorted(side="left")\<close> among the bin edges, intervals are closed on
  the right, and a value that lands before the first edge or after the last one is NaN.
\<close>

datatype edge = NegInf | Edge rat | PosInf

fun edge_less :: "edge \<Rightarrow> rat \<Rightarrow> bool" where
  "edge_less NegInf v = True"
| "edge_less (Edge b) v = (b < v)"
| "edge_less PosInf v = False"

definition searchsorted :: "edge list \<Rightarrow> rat \<Rightarrow> nat" where
  \<comment> \<open>on increasing edges: how many edges lie strictly below the value\<close>
  "searchsorted bins v = length (takeWhile (\<lambda>b. edge_less b v) bins)"

definition bins_to_cuts :: "edge list \<Rightarrow> string list \<Rightarrow> bool \<Rightarrow> cell \<Rightarrow> cell" where
  "bins_to_cuts bins labels include_lowest x =
     (case x of
        Num v \<Rightarrow>
          (let i = (if include_lowest \<and> bins \<noteq> [] \<and> hd bins = Edge v then 1
                    else searchsorted bins v)
           in if i = 0 \<or> i = length bins then NA else Str (labels ! (i - 1)))
      | Str s \<Rightarrow> NA
      | NA \<Rightarrow> NA)"

fun is_str :: "cell \<Rightarrow> bool" where
  "is_str (Str s) = True"
| "is_str x = False"

definition pd_cut :: "edge list \<Rightarrow> string list \<Rightarrow> cell list \<Rightarrow> error + column" where
  \<comment> \<open>\<^verbatim>\<open>pd.cut(col, bins=[...], labels=[...])\<close>: the lowest edge is not included;
      a string cannot be compared with an edge\<close>
  "pd_cut bins labels xs =
     (if list_ex is_str xs then Inl TypeError
      else Inr \<lparr>dtype = CategoryT, cells = map (bins_to_cuts bins labels False) xs\<rparr>)"

definition quantile :: "rat list \<Rightarrow> rat \<Rightarrow> rat" where
  \<comment> \<open>\<^verbatim>\<open>Series.quantile(q)\<close> of a sorted non-empty list: linear interpolation\<close>
  "quantile s q =
     (let pos = q * (of_nat (length s) - 1);
          lo = nat \<lfloor>pos\<rfloor>;
          frac = pos - of_nat lo
      in if frac = 0 then s ! lo else s ! lo + frac * (s ! (lo + 1) - s ! lo))"

definition qcut3 :: "string list \<Rightarrow> cell list \<Rightarrow> error + column" where
  \<comment> \<open>\<^verbatim>\<open>pd.qcut(col, q=3, labels=[...])\<close>: edges at the quantiles 0, 1/3, 2/3, 1 of the
      non-missing values, the lowest edge included; equal edges raise\<close>
  "qcut3 labels xs =
     (if list_ex is_str xs then Inl TypeError
      else
        let s = sort (nums xs) in
        if s = [] then Inl ValueError
        else
          let bins = map (quantile s) [0, 1 / 3, 2 / 3, 1] in
          if \<not> distinct bins then Inl ValueError
          else Inr \<lparr>dtype = CategoryT,
                    cells = map (bins_to_cuts (map Edge bins) labels True) xs\<rparr>)"

definition linspace3 :: "rat \<Rightarrow> rat \<Rightarrow> rat list" where
  \<comment> \<open>\<^verbatim>\<open>np.linspace(a, b, 4)\<close>\<close>
  "linspace3 a b = [a, a + (b - a) / 3, a + 2 * (b - a) / 3, b]"

definition nbins_to_bins :: "rat \<Rightarrow> rat \<Rightarrow> rat list" where
  \<comment> \<open>the edges \<^verbatim>\<open>pd.cut\<close> makes for \<^verbatim>\<open>bins=3\<close> from the least and the greatest value:
      the range is widened by 0.1 percent on the left, or on both sides when it is a
      single point\<close>
  "nbins_to_bins mn mx =
     (if mn = mx
      then linspace3 (mn - (if mn \<noteq> 0 then 0.001 * \<bar>mn\<bar> else 0.001))
                     (mx + (if mx \<noteq> 0 then 0.001 * \<bar>mx\<bar> else 0.001))
      else (mn - (mx - mn) * 0.001) # tl (linspace3 mn mx))"

definition cut3 :: "string list \<Rightarrow> cell list \<Rightarrow> error + column" where
  \<comment> \<open>\<^verbatim>\<open>pd.cut(col, bins=3, labels=[...])\<close>: three bins of equal width over the range of
      the non-missing values; an empty or all-missing column raises\<close>
  "cut3 labels xs =
     (if xs = [] then Inl ValueError
      else if list_ex is_str xs then Inl TypeError
      else
        let vs = nums xs in
        if vs = [] then Inl ValueError
        else
          let bins = nbins_to_bins (fold min (tl vs) (hd vs)) (fold max (tl vs) (hd vs))
          in Inr \<lparr>dtype = CategoryT,
                   cells = map (bins_to_cuts (map Edge bins) labels False) xs\<rparr>)"

definition nunique :: "cell list \<Rightarrow> nat" where
  \<comment> \<open>\<^verbatim>\<open>Series.nunique()\<close>: the distinct non-missing values\<close>
  "nunique xs = length (remdups (filter (\<lambda>x. x \<noteq> NA) xs))"

section \<open>The Feature Deriver\<close>

fun run_steps :: "('s \<Rightarrow> error + 's) list \<Rightarrow> 's \<Rightarrow> error + 's" where
  \<comment> \<open>statements in sequence: the first exception ends the run\<close>
  "run_steps [] df = Inr df"
| "run_steps (f # fs) df = (case f df of Inl e \<Rightarrow> Inl e | Inr df' \<Rightarrow> run_steps fs df')"

definition product_step :: "table \<Rightarrow> error + table" where
  "product_step df =
     (case map_of df ''product'' of
        None \<Rightarrow> Inr df
      | Some col \<Rightarrow>
          if dtype col \<noteq> ObjectT then Inl AttributeError
          else Inr (assign ''product_label''
                 \<lparr>dtype = ObjectT,
                  cells = map (str_map (\<lambda>s. remove_whitespace (str_upper s))) (cells col)\<rparr> df))"

definition gender_label :: "string \<Rightarrow> string" where
  \<comment> \<open>the lambda mapped over the lower-cased gender column\<close>
  "gender_label x =
     (if CHR ''m'' \<in> set x then ''male'' else if CHR ''f'' \<in> set x then ''female'' else x)"

definition gender_step :: "table \<Rightarrow> error + table" where
  "gender_step df =
     (case map_of df ''gender'' of
        None \<Rightarrow> Inr df
      | Some col \<Rightarrow>
          if dtype col \<noteq> ObjectT then Inl AttributeError
          else
            let lowered = map (str_map str_lower) (cells col) in
            if list_ex (\<lambda>x. \<not> is_str x) lowered then Inl TypeError
            else Inr (assign ''gender_label''
                   \<lparr>dtype = ObjectT, cells = map (str_map gender_label) lowered\<rparr> df))"

definition labels3 :: "string list" where
  "labels3 = [''low'', ''medium'', ''high'']"

definition income_step :: "table \<Rightarrow> error + table" where
  "income_step df =
     (case map_of df ''income'' of
        None \<Rightarrow> Inr df
      | Some col \<Rightarrow>
          (case qcut3 labels3 (map (\<lambda>x. if x = Num 0 then NA else x) (cells col)) of
             Inr b \<Rightarrow> Inr (assign ''income_bucket'' b df)
           | Inl e \<Rightarrow>
               (case pd_cut [NegInf, Edge 40000, Edge 70000, PosInf] labels3 (cells col) of
                  Inl e' \<Rightarrow> Inl e'
                | Inr b \<Rightarrow> Inr (assign ''income_bucket'' b df))))"

definition miles_step :: "table \<Rightarrow> error + table" where
  "miles_step df =
     (case map_of df ''miles'' of
        None \<Rightarrow> Inr df
      | Some col \<Rightarrow>
          (case (if 3 \<le> nunique (cells col) then qcut3 labels3 (cells col)
                 else cut3 labels3 (cells col)) of
             Inr b \<Rightarrow> Inr (assign ''miles_category'' b df)
           | Inl e \<Rightarrow>
               Inr (assign ''miles_category''
                 \<lparr>dtype = ObjectT, cells = replicate (nrows df) (Str ''unknown'')\<rparr> df)))"

definition usage_step :: "table \<Rightarrow> error + table" where
  "usage_step df =
     (case map_of df ''usage'' of
        None \<Rightarrow> Inr df
      | Some col \<Rightarrow>
          (case pd_cut [NegInf, Edge 2.99, Edge 5.0, PosInf]
                  [''casual'', ''regular'', ''heavy''] (cells col) of
             Inl e \<Rightarrow> Inl e
           | Inr b \<Rightarrow> Inr (assign ''usage_category'' b df)))"

definition age_step :: "table \<Rightarrow> error + table" where
  "age_step df =
     (case map_of df ''age'' of
        None \<Rightarrow> Inr df
      | Some col \<Rightarrow>
          (case pd_cut [Edge 0, Edge 24, Edge 34, Edge 44, Edge 54, Edge 120]
                  [''<25'', ''25-34'', ''35-44'', ''45-54'', ''55+''] (cells col) of
             Inl e \<Rightarrow> Inl e
           | Inr b \<Rightarrow> Inr (assign ''age_bucket'' b df)))"

definition education_synonyms :: "(string \<times> string) list" where
  "education_synonyms =
     [(''bachelors'', ''bachelor''), (''bachelor's'', ''bachelor''),
      (''masters'', ''master''), (''master's'', ''master''), (''phd'', ''phd'')]"

definition education_label :: "library \<Rightarrow> cell \<Rightarrow> cell" where
  "education_label L x =
     (let s = str_lower (astype_str L x)
      in Str (case map_of education_synonyms s of Some r \<Rightarrow> r | None \<Rightarrow> s))"

definition education_step :: "library \<Rightarrow> table \<Rightarrow> error + table" where
  "education_step L df =
     (case map_of df ''education'' of
        None \<Rightarrow> Inr df
      | Some col \<Rightarrow>
          Inr (assign ''education_label''
            \<lparr>dtype = ObjectT, cells = map (education_label L) (cells col)\<rparr> df))"

definition datetime_like :: "string \<Rightarrow> bool" where
  "datetime_like c =
     (str_contains ''date'' c \<or> str_contains ''time'' c \<or> str_contains ''datetime'' c)"

definition datetime_cols :: "table \<Rightarrow> string list" where
  "datetime_cols df = filter datetime_like (columns df)"

definition to_datetime_col :: "library \<Rightarrow> column \<Rightarrow> column" where
  \<comment> \<open>\<^verbatim>\<open>pd.to_datetime(col, errors="coerce")\<close>: a datetime column is returned as it is\<close>
  "to_datetime_col L col =
     (if dtype col = DatetimeT then col
      else \<lparr>dtype = DatetimeT, cells = map (to_datetime L) (cells col)\<rparr>)"

definition parse_datetime :: "library \<Rightarrow> string \<Rightarrow> table \<Rightarrow> error + table" where
  \<comment> \<open>\<^verbatim>\<open>df[dtc] = pd.to_datetime(df[dtc], errors="coerce")\<close>\<close>
  "parse_datetime L dtc df =
     (case map_of df dtc of
        None \<Rightarrow> Inl KeyError
      | Some col \<Rightarrow> Inr (assign dtc (to_datetime_col L col) df))"

definition derive_dt ::
  "string \<Rightarrow> (cell \<Rightarrow> cell) \<Rightarrow> dtype \<Rightarrow> string \<Rightarrow> table \<Rightarrow> error + table" where
  \<comment> \<open>\<^verbatim>\<open>df[name] = df[dtc].dt.field\<close>: the accessor exists on datetime columns only\<close>
  "derive_dt dtc field ty name df =
     (case map_of df dtc of
        None \<Rightarrow> Inl KeyError
      | Some col \<Rightarrow>
          if dtype col \<noteq> DatetimeT then Inl AttributeError
          else Inr (assign name \<lparr>dtype = ty, cells = map field (cells col)\<rparr> df))"

definition datetime_step :: "library \<Rightarrow> table \<Rightarrow> error + table" where
  "datetime_step L df =
     (case datetime_cols df of
        [] \<Rightarrow> Inr df
      | dtc # others \<Rightarrow>
          run_steps
            [parse_datetime L dtc,
             derive_dt dtc (dt_date L) ObjectT ''date'',
             derive_dt dtc (dt_hour L) NumericT ''hour'',
             derive_dt dtc (dt_day_name L) ObjectT ''day_of_week''] df)"

definition count_step :: "library \<Rightarrow> table \<Rightarrow> error + table" where
  "count_step L df =
     (if (''registered'' \<in> set (columns df) \<or> ''casual'' \<in> set (columns df))
         \<and> ''count'' \<notin> set (columns df)
      then
        (case map_of df ''registered'' of
           None \<Rightarrow> Inr df
         | Some reg \<Rightarrow>
             (case map_of df ''casual'' of
                None \<Rightarrow> Inr df
              | Some cas \<Rightarrow>
                  (case add_series L reg cas of
                     Inl e \<Rightarrow> Inl e
                   | Inr c \<Rightarrow> Inr (assign ''count'' c df))))
      else Inr df)"

definition feature_engineering :: "library \<Rightarrow> table \<Rightarrow> error + table" where
  "feature_engineering L df =
     run_steps
       [product_step, gender_step, income_step, miles_step, usage_step, age_step,
        education_step L, datetime_step L, count_step L] df"


section \<open>The Chart Renderer\<close>











section \<open>Specification vocabulary\<close>

definition usage_category_spec :: "rat \<Rightarrow> string" where
  \<comment> \<open>the thresholds as the specification words them\<close>
  "usage_category_spec u =
     (if u \<le> 2.99 then ''casual'' else if u \<le> 5.0 then ''regular'' else ''heavy'')"

fun label_of :: "(rat \<Rightarrow> string) \<Rightarrow> cell \<Rightarrow> cell" where
  \<comment> \<open>a labelling of numbers, lifted to cells: a missing value has no label\<close>
  "label_of f (Num u) = Str (f u)"
| "label_of f x = NA"

definition frame :: "string set \<Rightarrow> table \<Rightarrow> table \<Rightarrow> bool" where
  \<comment> \<open>the second table agrees with the first on every column whose name is outside W\<close>
  "frame W df df' = (\<forall>k. k \<notin> W \<longrightarrow> map_of df' k = map_of df k)"

section \<open>A library instance for concrete runs\<close>

text \<open>
  Numbers are written as unsigned decimal integers; a number in a datetime-like column
  is a count of nanoseconds since 1970-01-01 (a Thursday), a calendar date is its day
  number, and no string is a timestamp.
\<close>

fun parse_digits :: "nat \<Rightarrow> string \<Rightarrow> nat option" where
  "parse_digits acc [] = Some acc"
| "parse_digits acc (c # cs) =
     (case map_of (zip ''0123456789'' [0, 1, 2, 3, 4, 5, 6, 7, 8, 9]) c of
        None \<Rightarrow> None
      | Some d \<Rightarrow> parse_digits (10 * acc + d) cs)"

fun show_nat :: "nat \<Rightarrow> string" where
  "show_nat n =
     (if n < 10 then [''0123456789'' ! n] else show_nat (n div 10) @ [''0123456789'' ! (n mod 10)])"

fun label_num :: "(rat \<Rightarrow> cell) \<Rightarrow> cell \<Rightarrow> cell" where
  "label_num f (Num r) = f r"
| "label_num f x = NA"

definition day_names :: "string list" where
  "day_names =
     [''Monday'', ''Tuesday'', ''Wednesday'', ''Thursday'', ''Friday'', ''Saturday'', ''Sunday'']"

definition plain_library :: library where
  "plain_library =
     \<lparr>parse_num = (\<lambda>s. if s = [] then None else map_option of_nat (parse_digits 0 s)),
      show_num = (\<lambda>r. (if r < 0 then ''-'' else []) @ show_nat (nat \<lfloor>\<bar>r\<bar>\<rfloor>)),
      to_datetime = (\<lambda>x. case x of Num r \<Rightarrow> Num (of_int \<lfloor>r\<rfloor>) | Str s \<Rightarrow> NA | NA \<Rightarrow> NA),
      dt_date = label_num (\<lambda>r. Num (of_int (\<lfloor>r\<rfloor> div 86400000000000))),
      dt_hour = label_num (\<lambda>r. Num (of_int (\<lfloor>r\<rfloor> div 3600000000000 mod 24))),
      dt_day_name =
        label_num (\<lambda>r. Str (day_names ! nat ((\<lfloor>r\<rfloor> div 86400000000000 + 3) mod 7))),
      add_series =
        (\<lambda>a b. if dtype a = NumericT \<and> dtype b = NumericT
               then Inr \<lparr>dtype = NumericT,
                         cells = map (\<lambda>(x, y). case (x, y) of
                                       (Num u, Num v) \<Rightarrow> Num (u + v) | other \<Rightarrow> NA)
                                   (zip (cells a) (cells b))\<rparr>
               else Inl TypeError)\<rparr>"

definition wf_table :: "table \<Rightarrow> bool" where
  \<comment> \<open>every column has as many cells as the table has rows\<close>
  "wf_table df = list_all (\<lambda>(n, c). length (cells c) = nrows df) df"











section \<open>Assignments and frames\<close>

lemma map_of_assign: "map_of (assign k v df) k' = (if k' = k then Some v else map_of df k')"
  by (simp add: assign_def update_conv')

lemma columns_assign:
  "columns (assign k v df) = (if k \<in> set (columns df) then columns df else columns df @ [k])"
  by (simp add: assign_def columns_def update_keys)

lemma frame_refl: "frame W df df"
  by (simp add: frame_def)

lemma frame_trans: "frame W a b \<Longrightarrow> frame W b c \<Longrightarrow> frame W a c"
  by (simp add: frame_def)

lemma frame_mono: "frame V a b \<Longrightarrow> V \<subseteq> W \<Longrightarrow> frame W a b"
  by (auto simp: frame_def)

lemma frame_assign: "k \<in> W \<Longrightarrow> frame W df (assign k v df)"
  by (auto simp: frame_def map_of_assign)

lemma run_steps_append:
  "run_steps (fs @ gs) df = Inr df' \<longleftrightarrow> (\<exists>m. run_steps fs df = Inr m \<and> run_steps gs m = Inr df')"
  by (induction fs arbitrary: df) (auto split: sum.splits)

lemma run_steps_frame:
  assumes "run_steps fs df = Inr df'"
    and "\<And>f a b. f \<in> set fs \<Longrightarrow> f a = Inr b \<Longrightarrow> frame W a b"
  shows "frame W df df'"
  using assms
proof (induction fs arbitrary: df)
  case Nil
  then show ?case by (simp add: frame_refl)
next
  case (Cons f fs)
  from Cons.prems(1) obtain m where m: "f df = Inr m" "run_steps fs m = Inr df'"
    by (auto split: sum.splits)
  have "frame W df m" using Cons.prems(2)[of f df m] m by simp
  moreover have "frame W m df'" using Cons.IH[OF m(2)] Cons.prems(2) by auto
  ultimately show ?case by (rule frame_trans)
qed

lemma product_step_frame: "product_step a = Inr b \<Longrightarrow> frame {''product_label''} a b"
  by (auto simp: product_step_def frame_refl frame_assign split: option.splits if_splits)

lemma gender_step_frame: "gender_step a = Inr b \<Longrightarrow> frame {''gender_label''} a b"
  by (auto simp: gender_step_def Let_def frame_refl frame_assign split: option.splits if_splits)

lemma income_step_frame: "income_step a = Inr b \<Longrightarrow> frame {''income_bucket''} a b"
  by (auto simp: income_step_def frame_refl frame_assign split: option.splits sum.splits)

lemma miles_step_frame: "miles_step a = Inr b \<Longrightarrow> frame {''miles_category''} a b"
  by (auto simp: miles_step_def frame_refl frame_assign split: option.splits sum.splits)

lemma usage_step_frame: "usage_step a = Inr b \<Longrightarrow> frame {''usage_category''} a b"
  by (auto simp: usage_step_def frame_refl frame_assign split: option.splits sum.splits)

lemma age_step_frame: "age_step a = Inr b \<Longrightarrow> frame {''age_bucket''} a b"
  by (auto simp: age_step_def frame_refl frame_assign split: option.splits sum.splits)

lemma education_step_frame: "education_step L a = Inr b \<Longrightarrow> frame {''education_label''} a b"
  by (auto simp: education_step_def frame_refl frame_assign split: option.splits sum.splits)

lemma count_step_frame: "count_step L a = Inr b \<Longrightarrow> frame {''count''} a b"
  by (auto simp: count_step_def frame_refl frame_assign split: option.splits sum.splits if_splits)

lemma parse_datetime_frame: "parse_datetime L dtc a = Inr b \<Longrightarrow> frame {dtc} a b"
  by (auto simp: parse_datetime_def frame_assign split: option.splits)

lemma derive_dt_frame: "derive_dt dtc f ty name a = Inr b \<Longrightarrow> frame {name} a b"
  by (auto simp: derive_dt_def frame_assign split: option.splits if_splits)

lemma datetime_step_frame:
  assumes "datetime_step L a = Inr b"
  shows "frame ({k. datetime_like k} \<union> {''hour'', ''day_of_week''}) a b"
proof (cases "datetime_cols a")
  case Nil
  then show ?thesis using assms by (simp add: datetime_step_def frame_refl)
next
  case (Cons dtc others)
  have "dtc \<in> set (datetime_cols a)" using Cons by simp
  then have dl: "datetime_like dtc" by (simp add: datetime_cols_def)
  have dd: "datetime_like ''date''" by (simp add: datetime_like_def)
  from assms Cons have
    "run_steps [parse_datetime L dtc, derive_dt dtc (dt_date L) ObjectT ''date'',
       derive_dt dtc (dt_hour L) NumericT ''hour'',
       derive_dt dtc (dt_day_name L) ObjectT ''day_of_week''] a = Inr b"
    by (simp add: datetime_step_def)
  then show ?thesis
  proof (rule run_steps_frame)
    fix f x y
    assume "f \<in> set [parse_datetime L dtc, derive_dt dtc (dt_date L) ObjectT ''date'',
       derive_dt dtc (dt_hour L) NumericT ''hour'',
       derive_dt dtc (dt_day_name L) ObjectT ''day_of_week'']" and "f x = Inr y"
    then show "frame ({k. datetime_like k} \<union> {''hour'', ''day_of_week''}) x y"
      using dl dd
      by (auto dest!: parse_datetime_frame derive_dt_frame elim!: frame_mono)
  qed
qed

lemma frame_pre_usage:
  assumes "run_steps [product_step, gender_step, income_step, miles_step] df = Inr a"
  shows "frame {''product_label'', ''gender_label'', ''income_bucket'', ''miles_category''} df a"
  using assms
proof (rule run_steps_frame)
  fix f x y
  assume "f \<in> set [product_step, gender_step, income_step, miles_step]" and "f x = Inr y"
  then show "frame {''product_label'', ''gender_label'', ''income_bucket'', ''miles_category''} x y"
    by (auto dest!: product_step_frame gender_step_frame income_step_frame miles_step_frame
        elim!: frame_mono)
qed

lemma frame_post_usage:
  assumes "run_steps [age_step, education_step L, datetime_step L, count_step L] b = Inr c"
  shows "frame ({k. datetime_like k} \<union>
    {''age_bucket'', ''education_label'', ''hour'', ''day_of_week'', ''count''}) b c"
  using assms
proof (rule run_steps_frame)
  fix f x y
  assume "f \<in> set [age_step, education_step L, datetime_step L, count_step L]" and "f x = Inr y"
  then show "frame ({k. datetime_like k} \<union>
    {''age_bucket'', ''education_label'', ''hour'', ''day_of_week'', ''count''}) x y"
    by (auto dest!: age_step_frame education_step_frame datetime_step_frame count_step_frame
        elim!: frame_mono)
qed

lemma usage_cell:
  "bins_to_cuts [NegInf, Edge 2.99, Edge 5.0, PosInf] [''casual'', ''regular'', ''heavy''] False x =
     label_of usage_category_spec x"
  by (cases x) (auto simp: bins_to_cuts_def searchsorted_def usage_category_spec_def)

lemma usage_step_result:
  assumes "usage_step a = Inr b" and "map_of a ''usage'' = Some col"
  shows "map_of b ''usage_category'' =
    Some \<lparr>dtype = CategoryT, cells = map (label_of usage_category_spec) (cells col)\<rparr>"
  using assms unfolding usage_step_def pd_cut_def usage_cell
  by (auto simp: map_of_assign split: if_splits)

lemma usage_category_result:
  assumes "feature_engineering L df = Inr df'" and "map_of df ''usage'' = Some col"
  shows "map_of df' ''usage_category'' =
    Some \<lparr>dtype = CategoryT, cells = map (label_of usage_category_spec) (cells col)\<rparr>"
proof -
  have "run_steps ([product_step, gender_step, income_step, miles_step] @ [usage_step] @
      [age_step, education_step L, datetime_step L, count_step L]) df = Inr df'"
    using assms(1) by (simp add: feature_engineering_def)
  then obtain a b where a: "run_steps [product_step, gender_step, income_step, miles_step] df = Inr a"
    and b: "usage_step a = Inr b"
    and c: "run_steps [age_step, education_step L, datetime_step L, count_step L] b = Inr df'"
    unfolding run_steps_append by (auto split: sum.splits)
  have "map_of a ''usage'' = map_of df ''usage''"
    using frame_pre_usage[OF a] by (simp add: frame_def)
  then have "map_of a ''usage'' = Some col" using assms(2) by simp
  note r = usage_step_result[OF b this]
  have "\<not> datetime_like ''usage_category''"
    by (simp add: datetime_like_def)
  then have "map_of df' ''usage_category'' = map_of b ''usage_category''"
    using frame_post_usage[OF c] by (simp add: frame_def)
  then show ?thesis using r by simp
qed

text \<open>
  Claim C6. For every table with a usage column that the Feature Deriver accepts, the
  column \<^verbatim>\<open>usage_category\<close> of the result holds, row by row, \<^verbatim>\<open>casual\<close> for usage up
  to 2.99, \<^verbatim>\<open>regular\<close> above 2.99 and up to 5.0, and \<^verbatim>\<open>heavy\<close> above 5.0 (a missing usage
  has no category).
\<close>

theorem usage_category_thresholds:
  assumes "feature_engineering L df = Inr df'" and "map_of df ''usage'' = Some col"
  shows "map_of df' ''usage_category'' =
    Some \<lparr>dtype = CategoryT, cells = map (label_of usage_category_spec) (cells col)\<rparr>"
  using assms by (rule usage_category_result)

theorem usage_category_thresholds_witness:
  "\<exists>df'. feature_engineering plain_library
       [(''usage'', \<lparr>dtype = NumericT, cells = [Num 2.99, Num 3.0, Num 5.0, Num 5.01]\<rparr>)]
       = Inr df'
     \<and> map_of df' ''usage_category'' =
         Some \<lparr>dtype = CategoryT,
               cells = [Str ''casual'', Str ''regular'', Str ''regular'', Str ''heavy'']\<rparr>"
proof -
  let ?C = "\<lparr>dtype = NumericT, cells = [Num 2.99, Num 3.0, Num 5.0, Num 5.01]\<rparr>"
  let ?T' = "[(''usage'', ?C),
        (''usage_category'',
         \<lparr>dtype = CategoryT,
          cells = [Str ''casual'', Str ''regular'', Str ''regular'', Str ''heavy'']\<rparr>)]"
  have run: "feature_engineering plain_library [(''usage'', ?C)] = Inr ?T'"
    by code_simp
  have col: "map_of [(''usage'', ?C)] ''usage'' = Some ?C"
    by simp
  note r = usage_category_thresholds[OF run col]
  have e: "Some \<lparr>dtype = CategoryT, cells = map (label_of usage_category_spec) (cells ?C)\<rparr> =
      Some \<lparr>dtype = CategoryT,
            cells = [Str ''casual'', Str ''regular'', Str ''regular'', Str ''heavy'']\<rparr>"
    by (simp add: usage_category_spec_def)
  show ?thesis
    by (rule exI[of _ ?T'], rule conjI[OF run], rule trans[OF r e])
qed

section \<open>Gender labels\<close>

text \<open>
  Claim C1. The gender column is lower-cased and mapped to \<^verbatim>\<open>male\<close> when it contains the
  letter m, else to \<^verbatim>\<open>female\<close> when it contains f, else kept. On the six inputs the claim
  names, the Feature Deriver returns \<^verbatim>\<open>male\<close> for Male, M and m, \<^verbatim>\<open>female\<close> for f, but
  \<^verbatim>\<open>male\<close> for Female (the word female contains an m), and the lower-cased \<^verbatim>\<open>x\<close> for X.
\<close>

theorem gender_label_on_claimed_inputs:
  "feature_engineering L
     [(''gender'', \<lparr>dtype = ObjectT,
         cells = [Str ''Male'', Str ''M'', Str ''m'', Str ''Female'', Str ''f'', Str ''X'']\<rparr>)] =
   Inr [(''gender'', \<lparr>dtype = ObjectT,
          cells = [Str ''Male'', Str ''M'', Str ''m'', Str ''Female'', Str ''f'', Str ''X'']\<rparr>),
        (''gender_label'', \<lparr>dtype = ObjectT,
          cells = [Str ''male'', Str ''male'', Str ''male'', Str ''male'', Str ''female'',
                   Str ''x'']\<rparr>)]"
  by (simp add: feature_engineering_def product_step_def gender_step_def income_step_def
      miles_step_def usage_step_def age_step_def education_step_def datetime_step_def
      count_step_def datetime_cols_def datetime_like_def columns_def assign_def
      gender_label_def str_lower_def lower_char_def)

section \<open>Age buckets\<close>

text \<open>
  Claim C2. The age column is binned at 24, 34, 44 and 54 into the labels \<^verbatim>\<open><25\<close>,
  \<^verbatim>\<open>25-34\<close>, \<^verbatim>\<open>35-44\<close>, \<^verbatim>\<open>45-54\<close> and \<^verbatim>\<open>55+\<close>. On the four ages the claim names, the
  Feature Deriver returns \<^verbatim>\<open><25\<close> for 24, \<^verbatim>\<open>25-34\<close> for 25 and \<^verbatim>\<open>55+\<close> for 120, but no
  bucket at all for age 0: the first bin is open at its lower edge 0.
\<close>

theorem age_bucket_on_claimed_inputs:
  "feature_engineering L
     [(''age'', \<lparr>dtype = NumericT, cells = [Num 24, Num 25, Num 120, Num 0]\<rparr>)] =
   Inr [(''age'', \<lparr>dtype = NumericT, cells = [Num 24, Num 25, Num 120, Num 0]\<rparr>),
        (''age_bucket'', \<lparr>dtype = CategoryT,
          cells = [Str ''<25'', Str ''25-34'', Str ''55+'', NA]\<rparr>)]"
  by (simp add: feature_engineering_def product_step_def gender_step_def income_step_def
      miles_step_def usage_step_def age_step_def education_step_def datetime_step_def
      count_step_def datetime_cols_def datetime_like_def columns_def assign_def
      pd_cut_def bins_to_cuts_def searchsorted_def)

lemma wf_table_lookup: "wf_table df \<Longrightarrow> map_of df k = Some c \<Longrightarrow> length (cells c) = nrows df"
  by (auto simp: wf_table_def list_all_iff dest!: map_of_SomeD)

lemma nrows_update:
  "length (cells v) = nrows df \<Longrightarrow> df \<noteq> [] \<Longrightarrow> nrows (AList.update k v df) = nrows df"
  by (cases df) (auto simp: nrows_def)

lemma wf_assign:
  assumes "wf_table df" and "map_of df k0 = Some c0" and "length (cells v) = length (cells c0)"
  shows "wf_table (assign k v df)" and "nrows (assign k v df) = nrows df"
proof -
  have len: "length (cells v) = nrows df"
    using assms by (simp add: wf_table_lookup)
  have ne: "df \<noteq> []" using assms(2) by auto
  show n: "nrows (assign k v df) = nrows df"
    using len ne by (simp add: assign_def nrows_update)
  have "set (AList.update k v df) \<subseteq> insert (k, v) (set df)"
    by (induction df) auto
  then show "wf_table (assign k v df)"
    using assms(1) len n unfolding wf_table_def list_all_iff assign_def by auto
qed

lemma length_pd_cut: "pd_cut bins labels xs = Inr b \<Longrightarrow> length (cells b) = length xs"
  by (auto simp: pd_cut_def split: if_splits)

lemma length_qcut3: "qcut3 labels xs = Inr b \<Longrightarrow> length (cells b) = length xs"
  by (auto simp: qcut3_def Let_def split: if_splits)

lemma length_cut3: "cut3 labels xs = Inr b \<Longrightarrow> length (cells b) = length xs"
  by (auto simp: cut3_def Let_def split: if_splits)




lemma miles_step_wf:
  "miles_step a = Inr b \<Longrightarrow> wf_table a \<Longrightarrow> wf_table b \<and> nrows b = nrows a"
  by (auto simp: miles_step_def wf_assign wf_table_lookup dest!: length_qcut3 length_cut3
      split: option.splits sum.splits if_splits)

lemma usage_step_wf:
  "usage_step a = Inr b \<Longrightarrow> wf_table a \<Longrightarrow> wf_table b \<and> nrows b = nrows a"
  by (auto simp: usage_step_def wf_assign dest!: length_pd_cut split: option.splits sum.splits)

lemma age_step_wf:
  "age_step a = Inr b \<Longrightarrow> wf_table a \<Longrightarrow> wf_table b \<and> nrows b = nrows a"
  by (auto simp: age_step_def wf_assign dest!: length_pd_cut split: option.splits sum.splits)

lemma education_step_wf:
  "education_step L a = Inr b \<Longrightarrow> wf_table a \<Longrightarrow> wf_table b \<and> nrows b = nrows a"
  by (auto simp: education_step_def wf_assign split: option.splits)










section \<open>The Imputer: medians and idempotence\<close>

lemma dropWhile_rev_strip:
  "w = dropWhile P (rev (dropWhile P s)) \<Longrightarrow> dropWhile P (rev w) = rev w"
  by (metis (no_types, lifting) Nil_is_rev_conv dropWhile_eq_Nil_conv
    dropWhile_eq_self_iff dropWhile_last hd_dropWhile hd_rev last_rev)

lemma str_strip_idem: "str_strip (str_strip s) = str_strip s"
proof -
  define w where "w = dropWhile is_space (rev (dropWhile is_space s))"
  have t: "str_strip s = rev w" by (simp add: str_strip_def w_def)
  have 1: "dropWhile is_space (rev w) = rev w"
    using w_def by (rule dropWhile_rev_strip)
  have 2: "dropWhile is_space w = w"
    by (simp add: w_def)
  show ?thesis
    unfolding t unfolding str_strip_def by (simp add: 1 2)
qed

lemma map_of_on_column:
  "map_of (on_column k f df) k' = (if k' = k then map_option f (map_of df k) else map_of df k')"
  by (auto simp: on_column_def map_of_assign split: option.splits)

lemma columns_on_column: "columns (on_column k f df) = columns df"
proof (cases "map_of df k")
  case None
  then show ?thesis by (simp add: on_column_def)
next
  case (Some col)
  then have "k \<in> set (columns df)"
    by (auto simp: columns_def dest!: map_of_SomeD intro: rev_image_eqI)
  then show ?thesis using Some by (simp add: on_column_def columns_assign)
qed

lemma map_of_fold_on_column:
  "distinct ks \<Longrightarrow>
   map_of (fold (\<lambda>k df. on_column k f df) ks df) k' =
     (if k' \<in> set ks then map_option f (map_of df k') else map_of df k')"
  by (induction ks arbitrary: df) (auto simp: map_of_on_column)

lemma columns_fold_on_column: "columns (fold (\<lambda>k df. on_column k f df) ks df) = columns df"
  by (induction ks arbitrary: df) (auto simp: columns_on_column)

lemma map_of_impute_and_cast:
  "map_of (impute_and_cast L df) k =
     (if k \<in> set numeric_candidates then map_option (impute_column L) (map_of df k)
      else if k \<in> set [''product'', ''gender'', ''education'']
           then map_option (astype_str_strip L) (map_of df k)
      else map_of df k)"
proof -
  have d1: "distinct numeric_candidates" by (simp add: numeric_candidates_def)
  have d2: "distinct [''product'', ''gender'', ''education'']" by simp
  have disj: "k \<in> set numeric_candidates \<Longrightarrow> k \<notin> set [''product'', ''gender'', ''education'']"
    by (auto simp: numeric_candidates_def)
  have "map_of (impute_and_cast L df) k =
     (if k \<in> set [''product'', ''gender'', ''education'']
      then map_option (astype_str_strip L)
        (map_of (fold (\<lambda>col df. on_column col (impute_column L) df) numeric_candidates df) k)
      else map_of (fold (\<lambda>col df. on_column col (impute_column L) df) numeric_candidates df) k)"
    unfolding impute_and_cast_def Let_def by (rule map_of_fold_on_column[OF d2])
  also have "map_of (fold (\<lambda>col df. on_column col (impute_column L) df) numeric_candidates df) k =
      (if k \<in> set numeric_candidates then map_option (impute_column L) (map_of df k)
       else map_of df k)"
    by (rule map_of_fold_on_column[OF d1])
  finally show ?thesis using disj by (simp del: set_simps)
qed

lemma columns_impute_and_cast: "columns (impute_and_cast L df) = columns df"
  unfolding impute_and_cast_def Let_def by (simp only: columns_fold_on_column)

lemma to_numeric_cases: "to_numeric L x = NA \<or> (\<exists>r. to_numeric L x = Num r)"
  by (auto simp: to_numeric_def split: cell.splits option.splits)


lemma cells_impute_column:
  "cells (impute_column L col) =
     map (\<lambda>x. if to_numeric L x = NA
               then Num (case median (nums (map (to_numeric L) (cells col))) of
                          None \<Rightarrow> 0 | Some m \<Rightarrow> m)
               else to_numeric L x) (cells col)"
  by (simp add: impute_column_def Let_def fillna_def)

lemma impute_column_all_num:
  "x \<in> set (cells (impute_column L col)) \<Longrightarrow> \<exists>r. x = Num r"
  using to_numeric_cases by (auto simp: cells_impute_column)




lemma table_eqI:
  "columns a = columns b \<Longrightarrow> distinct (columns a) \<Longrightarrow> (\<And>k. map_of a k = map_of b k) \<Longrightarrow> a = b"
proof (induction a arbitrary: b)
  case Nil
  then show ?case by (simp add: columns_def)
next
  case (Cons p a)
  from Cons.prems(1) obtain q b' where b: "b = q # b'" and pq: "fst p = fst q"
    and cols: "columns a = columns b'"
    by (cases b) (auto simp: columns_def)
  have "map_of (p # a) (fst p) = map_of (q # b') (fst p)"
    using Cons.prems(3)[of "fst p"] b by simp
  then have "snd p = snd q" using pq by simp
  then have peq: "p = q" using pq by (simp add: prod_eq_iff)
  have "map_of a k = map_of b' k" for k
  proof (cases "k = fst p")
    case True
    then have ka: "k \<notin> set (columns a)"
      using Cons.prems(2) by (simp add: columns_def)
    then have kb: "k \<notin> set (columns b')"
      using cols by simp
    have "map_of a k = None" using ka by (simp add: columns_def map_of_eq_None_iff)
    moreover have "map_of b' k = None" using kb by (simp add: columns_def map_of_eq_None_iff)
    ultimately show ?thesis by simp
  next
    case False
    then show ?thesis using Cons.prems(3)[of k] b peq by auto
  qed
  moreover have "distinct (columns a)" using Cons.prems(2) by (simp add: columns_def)
  ultimately have "a = b'" using Cons.IH cols by blast
  then show ?case using b peq by simp
qed

lemma to_numeric_Num: "to_numeric L (Num r) = Num r"
  by (simp add: to_numeric_def)

lemma impute_column_idem: "impute_column L (impute_column L col) = impute_column L col"
proof -
  have "map (\<lambda>x. if to_numeric L x = NA
               then Num (case median (nums (map (to_numeric L) (cells (impute_column L col)))) of
                          None \<Rightarrow> 0 | Some m \<Rightarrow> m)
               else to_numeric L x) (cells (impute_column L col)) = cells (impute_column L col)"
    by (rule map_idI) (auto dest!: impute_column_all_num simp: to_numeric_Num)
  then have "cells (impute_column L (impute_column L col)) = cells (impute_column L col)"
    by (simp only: cells_impute_column[of L "impute_column L col"])
  moreover have "dtype (impute_column L c) = NumericT" for c
    by (simp add: impute_column_def Let_def)
  ultimately show ?thesis by simp
qed

lemma astype_str_strip_idem:
  "astype_str_strip L (astype_str_strip L col) = astype_str_strip L col"
  by (simp add: astype_str_strip_def astype_str_def str_strip_idem)

text \<open>
  Claim C9. The Imputer/Caster is idempotent: on a table with distinct column names,
  applying it twice gives the same table as applying it once.
\<close>

theorem impute_and_cast_idempotent:
  assumes "distinct (columns df)"
  shows "impute_and_cast L (impute_and_cast L df) = impute_and_cast L df"
proof (rule table_eqI)
  show "columns (impute_and_cast L (impute_and_cast L df)) = columns (impute_and_cast L df)"
    by (simp only: columns_impute_and_cast)
  show "distinct (columns (impute_and_cast L (impute_and_cast L df)))"
    using assms by (simp only: columns_impute_and_cast)
  show "map_of (impute_and_cast L (impute_and_cast L df)) k = map_of (impute_and_cast L df) k"
    for k
    unfolding map_of_impute_and_cast[of L "impute_and_cast L df"]
    unfolding map_of_impute_and_cast[of L df]
    by (cases "map_of df k")
       (simp_all add: impute_column_idem astype_str_strip_idem del: set_simps)
qed

theorem impute_and_cast_idempotent_witness:
  "impute_and_cast plain_library (impute_and_cast plain_library
     [(''gender'', \<lparr>dtype = ObjectT, cells = [Str '' Male'', NA, Str ''Female '']\<rparr>),
      (''income'', \<lparr>dtype = ObjectT, cells = [Str ''10'', Str ''abc'', Num 30]\<rparr>)]) =
   impute_and_cast plain_library
     [(''gender'', \<lparr>dtype = ObjectT, cells = [Str '' Male'', NA, Str ''Female '']\<rparr>),
      (''income'', \<lparr>dtype = ObjectT, cells = [Str ''10'', Str ''abc'', Num 30]\<rparr>)]"
  by (rule impute_and_cast_idempotent) (simp add: columns_def)

section \<open>The Cleaner: duplicates and row counts\<close>














lemma set_keep_rows_upt: "i \<in> set (keep_rows m [0..<n]) \<Longrightarrow> i < n"
proof -
  assume "i \<in> set (keep_rows m [0..<n])"
  then have "i \<in> fst ` set (zip [0..<n] m)"
    by (auto simp: keep_rows_def)
  then show ?thesis by (auto dest: set_zip_leftD)
qed

























section \<open>The Feature Deriver: what it leaves alone\<close>



























section \<open>Binning: labels and bounds\<close>

lemma searchsorted_le: "searchsorted bins v \<le> length bins"
  by (simp add: searchsorted_def length_takeWhile_le)

lemma bins_to_cuts_labels:
  assumes "length bins = Suc (length labels)"
  shows "bins_to_cuts bins labels incl x \<in> insert NA (Str ` set labels)"
proof (cases x)
  case (Num v)
  let ?i = "if incl \<and> bins \<noteq> [] \<and> hd bins = Edge v then 1 else searchsorted bins v"
  have le: "?i \<le> length bins"
    using searchsorted_le[of bins v] assms by auto
  show ?thesis
  proof (cases "?i = 0 \<or> ?i = length bins")
    case True
    then show ?thesis using Num by (simp add: bins_to_cuts_def Let_def)
  next
    case False
    then have "?i - 1 < length labels" using le assms by auto
    then have "labels ! (?i - 1) \<in> set labels" by (rule nth_mem)
    then show ?thesis using Num False by (simp add: bins_to_cuts_def Let_def)
  qed
qed (simp_all add: bins_to_cuts_def)








lemma fold_min_le: "v \<in> set (x # xs) \<Longrightarrow> fold min xs x \<le> (v :: rat)"
  by (simp only: Min.set_eq_fold[symmetric]) (rule Min_le, simp_all)

lemma le_fold_max: "v \<in> set (x # xs) \<Longrightarrow> (v :: rat) \<le> fold max xs x"
  by (simp only: Max.set_eq_fold[symmetric]) (rule Max_ge, simp_all)

lemma nbins_to_bins_shape:
  assumes "mn \<le> mx"
  shows "\<exists>b0 b1 b2 b3. nbins_to_bins mn mx = [b0, b1, b2, b3] \<and> b0 < mn \<and> mx \<le> b3"
proof (cases "mn = mx")
  case True
  then show ?thesis by (simp add: nbins_to_bins_def linspace3_def)
next
  case False
  then have "mn < mx" using assms by simp
  then show ?thesis using False by (simp add: nbins_to_bins_def linspace3_def)
qed

lemma cut3_cells:
  assumes "cut3 labels xs = Inr b"
  shows "\<exists>b0 b1 b2 b3.
    cells b = map (bins_to_cuts [Edge b0, Edge b1, Edge b2, Edge b3] labels False) xs \<and>
    (\<forall>v \<in> set (nums xs). b0 < v \<and> v \<le> b3)"
proof -
  let ?vs = "nums xs"
  let ?mn = "fold min (tl ?vs) (hd ?vs)"
  let ?mx = "fold max (tl ?vs) (hd ?vs)"
  from assms have ne: "?vs \<noteq> []"
    and c: "cells b = map (bins_to_cuts (map Edge (nbins_to_bins ?mn ?mx)) labels False) xs"
    unfolding cut3_def Let_def by (auto split: if_splits)
  have vs: "hd ?vs # tl ?vs = ?vs" using ne by simp
  have bounds: "?mn \<le> v \<and> v \<le> ?mx" if "v \<in> set ?vs" for v
  proof -
    have "v \<in> set (hd ?vs # tl ?vs)" using that vs by simp
    then show ?thesis using fold_min_le le_fold_max by blast
  qed
  have "hd ?vs \<in> set ?vs" using ne by simp
  then have "?mn \<le> ?mx" using bounds order_trans by blast
  from nbins_to_bins_shape[OF this] obtain b0 b1 b2 b3 where
    sh: "nbins_to_bins ?mn ?mx = [b0, b1, b2, b3]" and lo: "b0 < ?mn" and hi: "?mx \<le> b3"
    by blast
  have c': "cells b = map (bins_to_cuts [Edge b0, Edge b1, Edge b2, Edge b3] labels False) xs"
    using c by (simp only: sh list.map)
  have "\<forall>v \<in> set ?vs. b0 < v \<and> v \<le> b3"
  proof
    fix v assume "v \<in> set ?vs"
    then have "?mn \<le> v" "v \<le> ?mx" using bounds by auto
    then show "b0 < v \<and> v \<le> b3" using lo hi by auto
  qed
  then show ?thesis using c' by blast
qed



lemma cut3_labels:
  assumes "cut3 labels xs = Inr b" and "length labels = 3"
  shows "set (cells b) \<subseteq> insert NA (Str ` set labels)"
proof -
  from cut3_cells[OF assms(1)] obtain b0 b1 b2 b3 where
    c: "cells b = map (bins_to_cuts [Edge b0, Edge b1, Edge b2, Edge b3] labels False) xs"
    by blast
  show ?thesis
    unfolding c set_map
    by (rule image_subsetI, rule bins_to_cuts_labels) (simp add: assms(2))
qed




section \<open>The derived categorical columns\<close>

lemma feature_engineering_chain:
  assumes "feature_engineering L df = Inr df'"
  obtains a1 a2 a3 a4 a5 a6 a7 a8 where
    "product_step df = Inr a1" "gender_step a1 = Inr a2" "income_step a2 = Inr a3"
    "miles_step a3 = Inr a4" "usage_step a4 = Inr a5" "age_step a5 = Inr a6"
    "education_step L a6 = Inr a7" "datetime_step L a7 = Inr a8" "count_step L a8 = Inr df'"
  using assms unfolding feature_engineering_def
  by (auto split: sum.splits)

lemma frame_lookup: "frame W a b \<Longrightarrow> k \<notin> W \<Longrightarrow> map_of b k = map_of a k"
  by (simp add: frame_def)

lemma product_step_result:
  assumes "product_step a = Inr b" and "map_of a ''product'' = Some c"
  shows "map_of b ''product_label'' =
      Some \<lparr>dtype = ObjectT,
            cells = map (str_map (\<lambda>s. remove_whitespace (str_upper s))) (cells c)\<rparr>"
    and "dtype c = ObjectT"
  using assms by (auto simp: product_step_def map_of_assign split: if_splits)

lemma gender_step_result:
  assumes "gender_step a = Inr b" and "map_of a ''gender'' = Some c"
  shows "map_of b ''gender_label'' =
      Some \<lparr>dtype = ObjectT,
            cells = map (str_map gender_label) (map (str_map str_lower) (cells c))\<rparr>"
  using assms by (auto simp: gender_step_def Let_def map_of_assign split: if_splits)




lemma not_datetime_like_names:
  "\<not> datetime_like ''product''" "\<not> datetime_like ''gender''" "\<not> datetime_like ''income''"
  "\<not> datetime_like ''miles''" "\<not> datetime_like ''usage''" "\<not> datetime_like ''age''"
  "\<not> datetime_like ''product_label''" "\<not> datetime_like ''gender_label''"
  "\<not> datetime_like ''income_bucket''" "\<not> datetime_like ''miles_category''"
  "\<not> datetime_like ''usage_category''" "\<not> datetime_like ''age_bucket''"
  "\<not> datetime_like ''education_label''" "\<not> datetime_like ''education''"
  by (simp_all add: datetime_like_def)


lemma product_label_result:
  assumes "feature_engineering L df = Inr df'" and "map_of df ''product'' = Some c"
  shows "map_of df' ''product_label'' =
      Some \<lparr>dtype = ObjectT,
            cells = map (str_map (\<lambda>s. remove_whitespace (str_upper s))) (cells c)\<rparr>"
proof -
  from assms(1) obtain a1 a2 a3 a4 a5 a6 a7 a8 where
    s: "product_step df = Inr a1" "gender_step a1 = Inr a2" "income_step a2 = Inr a3"
    "miles_step a3 = Inr a4" "usage_step a4 = Inr a5" "age_step a5 = Inr a6"
    "education_step L a6 = Inr a7" "datetime_step L a7 = Inr a8" "count_step L a8 = Inr df'"
    by (rule feature_engineering_chain)
  note f = frame_lookup[OF product_step_frame[OF s(1)]]
    frame_lookup[OF gender_step_frame[OF s(2)]]
    frame_lookup[OF income_step_frame[OF s(3)]]
    frame_lookup[OF miles_step_frame[OF s(4)]]
    frame_lookup[OF usage_step_frame[OF s(5)]]
    frame_lookup[OF age_step_frame[OF s(6)]]
    frame_lookup[OF education_step_frame[OF s(7)]]
    frame_lookup[OF datetime_step_frame[OF s(8)]]
    frame_lookup[OF count_step_frame[OF s(9)]]
  have "map_of df' ''product_label'' = map_of a1 ''product_label''"
    by (simp add: f(2-9) not_datetime_like_names)
  then show ?thesis using product_step_result(1)[OF s(1) assms(2)] by simp
qed

lemma gender_label_result:
  assumes "feature_engineering L df = Inr df'" and "map_of df ''gender'' = Some c"
  shows "map_of df' ''gender_label'' =
      Some \<lparr>dtype = ObjectT,
            cells = map (str_map gender_label) (map (str_map str_lower) (cells c))\<rparr>"
proof -
  from assms(1) obtain a1 a2 a3 a4 a5 a6 a7 a8 where
    s: "product_step df = Inr a1" "gender_step a1 = Inr a2" "income_step a2 = Inr a3"
    "miles_step a3 = Inr a4" "usage_step a4 = Inr a5" "age_step a5 = Inr a6"
    "education_step L a6 = Inr a7" "datetime_step L a7 = Inr a8" "count_step L a8 = Inr df'"
    by (rule feature_engineering_chain)
  note f = frame_lookup[OF product_step_frame[OF s(1)]]
    frame_lookup[OF gender_step_frame[OF s(2)]]
    frame_lookup[OF income_step_frame[OF s(3)]]
    frame_lookup[OF miles_step_frame[OF s(4)]]
    frame_lookup[OF usage_step_frame[OF s(5)]]
    frame_lookup[OF age_step_frame[OF s(6)]]
    frame_lookup[OF education_step_frame[OF s(7)]]
    frame_lookup[OF datetime_step_frame[OF s(8)]]
    frame_lookup[OF count_step_frame[OF s(9)]]
  have src: "map_of a1 ''gender'' = Some c"
    using assms(2) by (simp add: f(1))
  have "map_of df' ''gender_label'' = map_of a2 ''gender_label''"
    by (simp add: f(3-9) not_datetime_like_names)
  then show ?thesis using gender_step_result[OF s(2) src] by simp
qed











section \<open>The pipeline end to end\<close>










































end
